theory Spec2Isabelle
  imports Complex_Main "HOL-Library.Sublist"
begin

section \<open>Data model (models.py)\<close>

text \<open>
  A \<open>Decimal\<close> value is modelled by the rational number it denotes. The arithmetic of the
  \<open>decimal\<close> module rounds every result to the 28 significant digits of the default
  context, half to even; section \<open>Decimal arithmetic\<close> models it. Special values (NaN,
  infinities) and the exponent limits of the context are not modelled.
  Python's \<open>float\<close> values are modelled as reals, without rounding and without NaN.
  Field names carry a short prefix where two classes of the source share a field name.
\<close>

type_synonym decimal = rat

datatype error = DivisionByZero | IndexError | PlacementFailed

record Position =
  p_security_id :: string
  p_symbol :: string
  p_quantity :: decimal
  p_market_value :: decimal
  p_book_value :: decimal
  p_currency :: string
  p_average_price :: decimal
  p_current_price :: decimal
  p_gain_loss :: decimal
  p_gain_loss_pct :: decimal

record PortfolioTarget =
  symbol :: string
  security_id :: string
  target_weight :: decimal
  target_value :: decimal
  current_value :: decimal
  current_weight :: decimal
  drift_pct :: decimal
  action :: string
  trade_value :: decimal
  trade_quantity :: int

record PortfolioSummary =
  total_value :: decimal
  cash_balance :: decimal
  positions_value :: decimal
  num_holdings :: nat
  targets :: "PortfolioTarget list"

record StockScore =
  s_symbol :: string
  s_name :: string
  sector :: string
  market_cap :: real
  avg_volume :: real
  return_90d :: real
  return_30d :: real
  volatility :: real
  sharpe_ratio :: real
  composite_score :: real
  is_etf :: bool

text \<open>
  The configuration values the engine reads, after the defaults of the \<open>get\<close> calls have
  been applied (config.py only loads them).
\<close>

record config =
  drift_threshold_pct :: decimal
  min_trade_value_cad :: decimal
  max_single_trade_cad :: decimal
  max_daily_trades :: int

section \<open>Decimal arithmetic\<close>

text \<open>
  The operators \<open>+\<close>, \<open>-\<close>, \<open>*\<close>, \<open>/\<close> and \<open>abs\<close> of \<open>Decimal\<close> return the exact result
  rounded to 28 significant digits with \<open>ROUND_HALF_EVEN\<close> (the default context).
  Comparisons, \<open>min\<close> and \<open>int\<close> are exact.
\<close>

definition round_half_even :: "rat \<Rightarrow> int" where
  "round_half_even x =
     (let f = \<lfloor>x\<rfloor>; d = x - of_int f
      in if d < 1 / 2 then f else if 1 / 2 < d then f + 1
         else if even f then f else f + 1)"

text \<open>The number of decimal digits of a positive integer.\<close>

function decimal_digits :: "int \<Rightarrow> nat" where
  "decimal_digits n = (if n < 10 then 1 else Suc (decimal_digits (n div 10)))"
  by pat_completeness auto
termination
  by (relation "measure nat") auto

declare decimal_digits.simps [simp del]

text \<open>
  \<open>Decimal.adjusted()\<close>: the exponent of the leading digit of a positive number, that
  is the \<open>k\<close> with \<open>10 ^ k \<le> x < 10 ^ (k + 1)\<close>. The digit counts of numerator and
  denominator give it up to one.
\<close>

definition adjusted :: "rat \<Rightarrow> int" where
  "adjusted x =
     (let k = int (decimal_digits (fst (quotient_of x)))
              - int (decimal_digits (snd (quotient_of x)))
      in if 10 powi k \<le> x then k else k - 1)"

text \<open>
  Rounding to the precision of the context: the coefficient is the number scaled to 28
  digits before the point and rounded half to even.
\<close>

definition dec_round :: "decimal \<Rightarrow> decimal" where
  "dec_round x =
     (if x = 0 then 0
      else let e = adjusted \<bar>x\<bar> - 27;
               c = round_half_even (\<bar>x\<bar> / 10 powi e)
           in sgn x * of_int c * 10 powi e)"

definition dec_add :: "decimal \<Rightarrow> decimal \<Rightarrow> decimal" where
  "dec_add a b = dec_round (a + b)"

definition dec_sub :: "decimal \<Rightarrow> decimal \<Rightarrow> decimal" where
  "dec_sub a b = dec_round (a - b)"

definition dec_mul :: "decimal \<Rightarrow> decimal \<Rightarrow> decimal" where
  "dec_mul a b = dec_round (a * b)"

text \<open>Division by zero raises; the callers test the divisor first.\<close>

definition dec_div :: "decimal \<Rightarrow> decimal \<Rightarrow> decimal" where
  "dec_div a b = dec_round (a / b)"

definition dec_abs :: "decimal \<Rightarrow> decimal" where
  "dec_abs a = dec_round \<bar>a\<bar>"

section \<open>Allocation planner (rebalancer.py, calculate_targets)\<close>

text \<open>
  \<open>int(x.to_integral_value(rounding=ROUND_DOWN))\<close> and \<open>int(x)\<close> on a \<open>Decimal\<close> both
  round toward zero.
\<close>

definition round_down :: "decimal \<Rightarrow> int" where
  "round_down x = (if 0 \<le> x then \<lfloor>x\<rfloor> else \<lceil>x\<rceil>)"

text \<open>\<open>{p.symbol: p for p in current_positions}\<close>: a later position replaces an earlier one.\<close>

definition pos_map :: "Position list \<Rightarrow> (string \<rightharpoonup> Position)" where
  "pos_map current_positions = fold (\<lambda>p m. m(p_symbol p \<mapsto> p)) current_positions Map.empty"

text \<open>The body of the loop over the selected symbols; \<open>None\<close> is the \<open>continue\<close>.\<close>

definition selected_target ::
  "config \<Rightarrow> decimal \<Rightarrow> decimal \<Rightarrow> decimal \<Rightarrow> (string \<rightharpoonup> Position) \<Rightarrow>
   (string \<rightharpoonup> decimal) \<Rightarrow> (string \<rightharpoonup> string) \<Rightarrow> string \<Rightarrow> PortfolioTarget option" where
  "selected_target cfg tot target_w target_value_per pmap security_prices security_ids sy =
    (let current_pos = pmap sy;
         price = (case security_prices sy of Some pr \<Rightarrow> pr | None \<Rightarrow> 0);
         sec_id = (case security_ids sy of Some i \<Rightarrow> i | None \<Rightarrow> [])
     in if price \<le> 0 then None
        else
          let cur_value = (case current_pos of Some p \<Rightarrow> p_market_value p | None \<Rightarrow> 0);
              cur_weight = (if tot > 0 then dec_div cur_value tot else 0);
              drift = (if target_w > 0
                       then dec_mul (dec_div (dec_abs (dec_sub cur_weight target_w)) target_w) 100
                       else 0);
              trade = dec_sub target_value_per cur_value;
              abs_trade = dec_abs trade;
              act = (if drift < drift_threshold_pct cfg \<or> abs_trade < min_trade_value_cad cfg
                     then ''hold''
                     else if trade > 0 then ''buy'' else ''sell'');
              trade_qty = (if drift < drift_threshold_pct cfg \<or> abs_trade < min_trade_value_cad cfg
                     then 0
                     else round_down (dec_div (min abs_trade (max_single_trade_cad cfg)) price))
          in Some \<lparr> symbol = sy, security_id = sec_id, target_weight = target_w,
                    target_value = target_value_per, current_value = cur_value,
                    current_weight = cur_weight, drift_pct = drift, action = act,
                    trade_value = abs_trade, trade_quantity = trade_qty \<rparr>)"

fun selected_targets ::
  "config \<Rightarrow> decimal \<Rightarrow> decimal \<Rightarrow> decimal \<Rightarrow> (string \<rightharpoonup> Position) \<Rightarrow>
   (string \<rightharpoonup> decimal) \<Rightarrow> (string \<rightharpoonup> string) \<Rightarrow> string list \<Rightarrow> PortfolioTarget list" where
  "selected_targets cfg tot target_w tv pmap prices ids [] = []"
| "selected_targets cfg tot target_w tv pmap prices ids (sy # rest) =
     (case selected_target cfg tot target_w tv pmap prices ids sy of
        None \<Rightarrow> selected_targets cfg tot target_w tv pmap prices ids rest
      | Some t \<Rightarrow> t # selected_targets cfg tot target_w tv pmap prices ids rest)"

text \<open>
  The target appended for a held position outside the selection. The local \<open>price\<close> of
  the source is computed there and never used.
\<close>

definition liquidation_target :: "decimal \<Rightarrow> Position \<Rightarrow> PortfolioTarget" where
  "liquidation_target tot pos =
     \<lparr> symbol = p_symbol pos, security_id = p_security_id pos, target_weight = 0,
       target_value = 0, current_value = p_market_value pos,
       current_weight = (if tot > 0 then dec_div (p_market_value pos) tot else 0),
       drift_pct = 100, action = ''sell'', trade_value = p_market_value pos,
       trade_quantity = round_down (p_quantity pos) \<rparr>"

fun liquidation_targets :: "decimal \<Rightarrow> string list \<Rightarrow> Position list \<Rightarrow> PortfolioTarget list" where
  "liquidation_targets tot selected_symbols [] = []"
| "liquidation_targets tot selected_symbols (pos # rest) =
     (if p_symbol pos \<notin> set selected_symbols \<and> p_quantity pos > 0
      then liquidation_target tot pos # liquidation_targets tot selected_symbols rest
      else liquidation_targets tot selected_symbols rest)"

text \<open>
  \<open>sum\<close> starts from the integer 0 and adds the market values from the left.
  \<open>Decimal("1") / Decimal(str(num_buckets))\<close> raises \<open>decimal.DivisionByZero\<close> when the
  selection is empty; this is the only raise of the function on finite decimals.
\<close>

definition calculate_targets ::
  "config \<Rightarrow> StockScore list \<Rightarrow> Position list \<Rightarrow> decimal \<Rightarrow>
   (string \<rightharpoonup> decimal) \<Rightarrow> (string \<rightharpoonup> string) \<Rightarrow> error + PortfolioSummary" where
  "calculate_targets cfg selected_stocks current_positions cash security_prices security_ids =
    (let selected_symbols = map s_symbol selected_stocks;
         pv = foldl dec_add 0 (map p_market_value current_positions);
         tot = dec_add cash pv
     in if tot \<le> 0
        then Inr \<lparr> total_value = tot, cash_balance = cash, positions_value = pv,
                   num_holdings = length current_positions, targets = [] \<rparr>
        else
          let num_buckets = length selected_symbols
          in if num_buckets = 0 then Inl DivisionByZero
             else
               let target_w = dec_div 1 (of_nat num_buckets);
                   target_value_per = dec_mul tot target_w;
                   pmap = pos_map current_positions
               in Inr \<lparr> total_value = tot, cash_balance = cash, positions_value = pv,
                          num_holdings = length current_positions,
                          targets =
                            selected_targets cfg tot target_w target_value_per pmap
                              security_prices security_ids selected_symbols
                            @ liquidation_targets tot selected_symbols current_positions \<rparr>)"


section \<open>Metric calculator (stock_picker.py, function \<open>_calculate_metrics\<close>)\<close>









section \<open>Ranker (stock_picker.py, functions \<open>_rank_and_score\<close> and \<open>_apply_sector_diversity\<close>)\<close>

text \<open>
  \<open>percentile_rank\<close> is a closure over \<open>n = len(scores)\<close>; every list it is called on has
  that length. \<open>sorted\<close> is stable, as \<open>sort_key\<close> is. The loop writes
  \<open>rank_idx / max(n - 1, 1)\<close> at the original index of each sorted entry.
  The factor values are floats; the model takes them as real numbers, so it covers the
  lists whose values are all numbers. With a NaN among them, every comparison with it is
  false and \<open>sorted\<close> no longer sorts: \<open>[1.0, nan, 0.0]\<close> stays in its order and gets
  the ranks \<open>[0.0, 0.5, 1.0]\<close>.
\<close>

definition assign_rank :: "nat \<Rightarrow> nat \<times> (nat \<times> real) \<Rightarrow> real list \<Rightarrow> real list" where
  "assign_rank n e ranks =
     ranks[fst (snd e) := real (fst e) / real_of_int (max (int n - 1) 1)]"

definition percentile_rank :: "nat \<Rightarrow> real list \<Rightarrow> real list" where
  "percentile_rank n vals =
     (let sorted_vals = sort_key snd (enumerate 0 vals);
          ranks = replicate n 0
      in fold (assign_rank n) (enumerate 0 sorted_vals) ranks)"

text \<open>
  The sector-diversity pass: \<open>sector_counts\<close> is the dictionary of the source, the result
  is the list \<open>diverse\<close> in the order of its appends.
\<close>

fun sector_diversity_loop ::
  "int \<Rightarrow> (string \<rightharpoonup> int) \<Rightarrow> StockScore list \<Rightarrow> StockScore list" where
  "sector_diversity_loop max_per_sector sector_counts [] = []"
| "sector_diversity_loop max_per_sector sector_counts (s # rest) =
     (let count = (case sector_counts (sector s) of Some c \<Rightarrow> c | None \<Rightarrow> 0)
      in if count < max_per_sector
         then s # sector_diversity_loop max_per_sector
                    (sector_counts(sector s \<mapsto> count + 1)) rest
         else sector_diversity_loop max_per_sector sector_counts rest)"

definition apply_sector_diversity :: "StockScore list \<Rightarrow> int \<Rightarrow> StockScore list" where
  "apply_sector_diversity scores max_per_sector =
     sector_diversity_loop max_per_sector Map.empty scores"


section \<open>Rate limiter (executor.py, RateLimiter)\<close>

text \<open>
  Time is explicit: every function takes the reading of \<open>time.time()\<close> and returns the
  reading at its end. \<open>time.sleep(d)\<close> advances the clock by \<open>d\<close>; the time that passes
  between two statements is not modelled.
\<close>

record RateLimiter =
  max_requests :: int
  window_seconds :: real
  timestamps :: "real list"

definition prune_expired :: "real \<Rightarrow> RateLimiter \<Rightarrow> RateLimiter" where
  "prune_expired now rl =
     rl\<lparr>timestamps := dropWhile (\<lambda>t. t < now - window_seconds rl) (timestamps rl)\<rparr>"

text \<open>
  The \<open>while\<close> loop of \<open>acquire\<close>. With \<open>max_requests \<le> 0\<close> the loop condition holds on an
  empty deque and \<open>self._timestamps[0]\<close> raises \<open>IndexError\<close>; the limiter keeps the state
  it had reached.
\<close>

function acquire_wait :: "real \<Rightarrow> RateLimiter \<Rightarrow> (error + unit) \<times> real \<times> RateLimiter" where
  "acquire_wait now rl =
     (if max_requests rl \<le> int (length (timestamps rl)) then
        (case timestamps rl of
           [] \<Rightarrow> (Inl IndexError, now, rl)
         | oldest # _ \<Rightarrow>
             acquire_wait (now + max (window_seconds rl - (now - oldest) + 1) 1)
               (prune_expired (now + max (window_seconds rl - (now - oldest) + 1) 1) rl))
      else (Inr (), now, rl))"
  by pat_completeness auto
termination
proof (relation "measure (\<lambda>(now, rl). length (timestamps rl))")
  show "wf (measure (\<lambda>(now, rl). length (timestamps rl)))" by simp
next
  fix now :: real and rl :: RateLimiter and oldest :: real and rest :: "real list"
  assume ts: "timestamps rl = oldest # rest"
  let ?now' = "now + max (window_seconds rl - (now - oldest) + 1) 1"
  have "oldest < ?now' - window_seconds rl" by (simp add: max_def)
  then have "timestamps (prune_expired ?now' rl)
             = dropWhile (\<lambda>t. t < ?now' - window_seconds rl) rest"
    by (simp add: prune_expired_def ts)
  moreover have "length (dropWhile (\<lambda>t. t < ?now' - window_seconds rl) rest) \<le> length rest"
    by (rule length_dropWhile_le)
  ultimately show "((?now', prune_expired ?now' rl), (now, rl))
                   \<in> measure (\<lambda>(now, rl). length (timestamps rl))"
    by (simp add: ts)
qed

declare acquire_wait.simps [simp del]

definition acquire :: "real \<Rightarrow> RateLimiter \<Rightarrow> (error + unit) \<times> real \<times> RateLimiter" where
  "acquire now rl =
     (case acquire_wait now (prune_expired now rl) of
        (Inl e, now', rl') \<Rightarrow> (Inl e, now', rl')
      | (Inr u, now', rl') \<Rightarrow> (Inr (), now', rl'\<lparr>timestamps := timestamps rl' @ [now']\<rparr>))"

definition can_proceed :: "real \<Rightarrow> RateLimiter \<Rightarrow> bool \<times> RateLimiter" where
  "can_proceed now rl =
     (int (length (timestamps (prune_expired now rl))) < max_requests rl, prune_expired now rl)"

section \<open>Executor (executor.py, OrderExecutor)\<close>

datatype OrderType = BUY | SELL

datatype OrderSubType = MARKET | LIMIT

record OrderRequest =
  o_security_id :: string
  o_symbol :: string
  o_quantity :: int
  order_type :: OrderType
  order_sub_type :: OrderSubType
  limit_price :: decimal
  time_in_force :: string

record OrderResponse =
  order_id :: string
  r_security_id :: string
  r_symbol :: string
  r_quantity :: int
  r_order_type :: string
  status :: string
  r_limit_price :: "decimal option"
  filled_at :: "string option"
  created_at :: "string option"

text \<open>
  The executor object with the world it acts on: \<open>clock\<close> is the reading of
  \<open>time.time()\<close>, \<open>submitted\<close> the orders that \<open>place_order\<close> of the order service has been
  called with, in order. The order service is a parameter \<open>place\<close>: it returns a response
  or raises.
\<close>

record OrderExecutor =
  clock :: real
  rate_limiter :: RateLimiter
  executed_orders :: "OrderResponse list"
  daily_trade_count :: int
  submitted :: "OrderRequest list"

text \<open>
  The per-order gates. \<open>float(order.limit_price) * order.quantity\<close> is computed exactly
  here: the rounding of \<open>float\<close> can move an order whose value is within rounding
  distance of the cap to the other side of the first gate, and a quantity beyond the
  range of \<open>float\<close> (an \<open>OverflowError\<close>) is outside the model.
\<close>

definition validate_order :: "config \<Rightarrow> OrderRequest \<Rightarrow> bool" where
  "validate_order cfg order =
     (let trade_value = limit_price order * of_int (o_quantity order)
      in if trade_value > max_single_trade_cad cfg then False
         else if o_quantity order < 1 then False
         else True)"

text \<open>
  \<open>_execute_single\<close>: the count is incremented after \<open>place_order\<close> has returned; an
  exception of \<open>acquire\<close> or of \<open>place_order\<close> leaves the \<open>try\<close> block before that line.
\<close>

definition execute_single ::
  "(OrderRequest \<Rightarrow> error + OrderResponse) \<Rightarrow> OrderExecutor \<Rightarrow> OrderRequest \<Rightarrow>
   OrderExecutor \<times> OrderResponse option" where
  "execute_single place ex order =
     (case acquire (clock ex) (rate_limiter ex) of
        (Inl e, now', rl') \<Rightarrow> (ex\<lparr>clock := now', rate_limiter := rl'\<rparr>, None)
      | (Inr u, now', rl') \<Rightarrow>
          (case place order of
             Inl e \<Rightarrow>
               (ex\<lparr>clock := now', rate_limiter := rl',
                   submitted := submitted ex @ [order]\<rparr>, None)
           | Inr resp \<Rightarrow>
               (ex\<lparr>clock := now', rate_limiter := rl',
                   submitted := submitted ex @ [order],
                   daily_trade_count := daily_trade_count ex + 1\<rparr>, Some resp)))"

text \<open>One of the two \<open>for\<close> loops of \<open>execute_orders\<close>; \<open>results\<close> is the list they share.\<close>

fun execute_loop ::
  "(OrderRequest \<Rightarrow> error + OrderResponse) \<Rightarrow> config \<Rightarrow> OrderExecutor \<Rightarrow>
   OrderRequest list \<Rightarrow> OrderResponse list \<Rightarrow> OrderExecutor \<times> OrderResponse list" where
  "execute_loop place cfg ex [] results = (ex, results)"
| "execute_loop place cfg ex (order # rest) results =
     (if max_daily_trades cfg \<le> daily_trade_count ex then (ex, results)
      else if \<not> validate_order cfg order then execute_loop place cfg ex rest results
      else
        (case execute_single place ex order of
           (ex', None) \<Rightarrow> execute_loop place cfg ex' rest results
         | (ex', Some resp) \<Rightarrow> execute_loop place cfg ex' rest (results @ [resp])))"

definition execute_orders ::
  "(OrderRequest \<Rightarrow> error + OrderResponse) \<Rightarrow> config \<Rightarrow> OrderExecutor \<Rightarrow>
   OrderRequest list \<Rightarrow> OrderRequest list \<Rightarrow> OrderExecutor \<times> OrderResponse list" where
  "execute_orders place cfg ex sell_orders buy_orders =
     (case execute_loop place cfg ex sell_orders [] of
        (ex1, results1) \<Rightarrow>
          (case execute_loop place cfg
                  (if sell_orders \<noteq> [] \<and> buy_orders \<noteq> [] then ex1\<lparr>clock := clock ex1 + 5\<rparr>
                   else ex1)
                  buy_orders results1 of
             (ex2, results) \<Rightarrow>
               (ex2\<lparr>executed_orders := executed_orders ex2 @ results\<rparr>, results)))"


section \<open>Defaults of the source and formulas of the spec\<close>

text \<open>
  The defaults of the \<open>get\<close> calls in rebalancer.py and executor.py, and the field
  defaults of \<open>StockScore\<close> in models.py.
\<close>

definition default_config :: config where
  "default_config = \<lparr> drift_threshold_pct = 5, min_trade_value_cad = 1,
                      max_single_trade_cad = 5000, max_daily_trades = 20 \<rparr>"

definition default_StockScore :: "string \<Rightarrow> StockScore" where
  "default_StockScore sy = \<lparr> s_symbol = sy, s_name = [], sector = [], market_cap = 0,
     avg_volume = 0, return_90d = 0, return_30d = 0, volatility = 0, sharpe_ratio = 0,
     composite_score = 0, is_etf = False \<rparr>"




section \<open>Properties of the Decimal arithmetic\<close>

lemma decimal_digits_pos: "0 < decimal_digits n"
  by (simp add: decimal_digits.simps[of n])

lemma decimal_digits_bounds:
  "0 < n \<Longrightarrow> 10 ^ (decimal_digits n - 1) \<le> n \<and> n < 10 ^ decimal_digits n"
proof (induction n rule: decimal_digits.induct)
  case (1 n)
  show ?case
  proof (cases "n < 10")
    case True
    then show ?thesis using "1.prems" by (simp add: decimal_digits.simps[of n])
  next
    case False
    define m where "m = n div 10"
    define k where "k = decimal_digits m"
    have d: "decimal_digits n = Suc k"
      using False by (simp add: decimal_digits.simps[of n] k_def m_def)
    have pos: "0 < n div 10" using False by simp
    from "1.IH"[OF False pos]
    have lo: "10 ^ (k - 1) \<le> m" and hi: "m < 10 ^ k" by (simp_all add: k_def m_def)
    have kpos: "0 < k" by (simp add: k_def decimal_digits_pos)
    then obtain j where j: "k = Suc j" by (cases k) simp_all
    have n1: "10 * m \<le> n" and n2: "n < 10 * m + 10" by (simp_all add: m_def)
    have "(10::int) ^ k = 10 * 10 ^ j" by (simp add: j)
    also have "\<dots> \<le> 10 * m" using lo by (simp add: j)
    finally have A: "10 ^ k \<le> n" using n1 by simp
    have "m + 1 \<le> 10 ^ k" using hi by simp
    then have "10 * m + 10 \<le> 10 * 10 ^ k" by simp
    then have B: "n < 10 * 10 ^ k" using n2 by simp
    from A B show ?thesis by (simp add: d)
  qed
qed


lemma of_int_pow10_le: "10 ^ k \<le> (p::int) \<Longrightarrow> (10::rat) ^ k \<le> of_int p"
proof -
  assume "10 ^ k \<le> p"
  then have "(of_int (10 ^ k) :: rat) \<le> of_int p" by (simp only: of_int_le_iff)
  then show ?thesis by simp
qed

lemma of_int_less_pow10: "(p::int) < 10 ^ k \<Longrightarrow> of_int p < (10::rat) ^ k"
proof -
  assume "p < 10 ^ k"
  then have "(of_int p :: rat) < of_int (10 ^ k)" by (simp only: of_int_less_iff)
  then show ?thesis by simp
qed

lemma adjusted_bounds:
  assumes "0 < x"
  shows "10 powi adjusted x \<le> x \<and> x < 10 powi (adjusted x + 1)"
proof -
  obtain p q where pq: "quotient_of x = (p, q)" by (cases "quotient_of x")
  then have q: "0 < q" and x: "x = of_int p / of_int q"
    by (simp_all add: quotient_of_denom_pos quotient_of_div)
  have qr: "(0::rat) < of_int q" using q by simp
  have p: "0 < p"
  proof (rule ccontr)
    assume "\<not> 0 < p"
    then have "(of_int p :: rat) \<le> 0" by simp
    then have "x \<le> 0" using qr unfolding x by (simp add: divide_le_0_iff)
    then show False using assms by simp
  qed
  have pr: "(0::rat) < of_int p" using p by simp
  define a where "a = decimal_digits p"
  define b where "b = decimal_digits q"
  have a: "0 < a" and b: "0 < b" by (simp_all add: a_def b_def decimal_digits_pos)
  from decimal_digits_bounds[OF p] have pa: "10 ^ (a - 1) \<le> p" "p < 10 ^ a"
    by (simp_all add: a_def)
  from decimal_digits_bounds[OF q] have qb: "10 ^ (b - 1) \<le> q" "q < 10 ^ b"
    by (simp_all add: b_def)
  note pa' = of_int_pow10_le[OF pa(1)] of_int_less_pow10[OF pa(2)]
  note qb' = of_int_pow10_le[OF qb(1)] of_int_less_pow10[OF qb(2)]
  have low: "10 powi (int a - int b - 1) \<le> x"
  proof -
    have e: "int a - int b - 1 = int (a - 1) - int b" using a by simp
    have "(10::rat) powi (int a - int b - 1) = 10 ^ (a - 1) / 10 ^ b"
      unfolding e by (simp add: power_int_diff)
    also have "\<dots> \<le> of_int p / 10 ^ b" using pa'(1) by (simp add: divide_right_mono)
    also have "\<dots> \<le> of_int p / of_int q"
    proof (rule divide_left_mono)
      show "of_int q \<le> (10::rat) ^ b" using qb'(2) by simp
      show "(0::rat) \<le> of_int p" using pr by simp
      show "(0::rat) < 10 ^ b * of_int q" using qr by simp
    qed
    finally show ?thesis by (simp add: x)
  qed
  have high: "x < 10 powi (int a - int b + 1)"
  proof -
    have e: "int a - int b + 1 = int a - int (b - 1)" using b by simp
    have "x = of_int p / of_int q" by (rule x)
    also have "\<dots> < 10 ^ a / of_int q" using pa'(2) qr by (simp add: divide_strict_right_mono)
    also have "\<dots> \<le> 10 ^ a / 10 ^ (b - 1)"
    proof (rule divide_left_mono)
      show "(10::rat) ^ (b - 1) \<le> of_int q" by (rule qb'(1))
      show "(0::rat) \<le> 10 ^ a" by simp
      show "(0::rat) < of_int q * 10 ^ (b - 1)" using qr by simp
    qed
    also have "\<dots> = (10::rat) powi (int a - int (b - 1))"
      by (simp add: power_int_diff)
    finally show ?thesis unfolding e .
  qed
  have adj: "adjusted x = (if 10 powi (int a - int b) \<le> x then int a - int b else int a - int b - 1)"
    by (simp add: adjusted_def pq a_def b_def Let_def)
  show ?thesis
  proof (cases "10 powi (int a - int b) \<le> x")
    case True
    then show ?thesis using high adj by simp
  next
    case False
    then show ?thesis using low adj by simp
  qed
qed


lemma round_half_even_of_int: "round_half_even (of_int n) = n"
  by (simp add: round_half_even_def)

lemma round_half_even_floor:
  "\<lfloor>x\<rfloor> \<le> round_half_even x \<and> round_half_even x \<le> \<lfloor>x\<rfloor> + 1"
  by (simp add: round_half_even_def Let_def)

lemma round_half_even_mono:
  assumes "x \<le> y"
  shows "round_half_even x \<le> round_half_even y"
proof -
  have fg: "\<lfloor>x\<rfloor> \<le> \<lfloor>y\<rfloor>" using assms by (rule floor_mono)
  show ?thesis
  proof (cases "\<lfloor>x\<rfloor> = \<lfloor>y\<rfloor>")
    case True
    have "x - of_int \<lfloor>y\<rfloor> \<le> y - of_int \<lfloor>y\<rfloor>" using assms by simp
    then show ?thesis
      by (auto simp: round_half_even_def Let_def True)
  next
    case False
    then have "\<lfloor>x\<rfloor> + 1 \<le> \<lfloor>y\<rfloor>" using fg by simp
    then show ?thesis
      using round_half_even_floor[of x] round_half_even_floor[of y] by linarith
  qed
qed

lemma round_half_even_nonneg: "0 \<le> x \<Longrightarrow> 0 \<le> round_half_even x"
  using round_half_even_mono[of 0 x] round_half_even_of_int[of 0] by simp

lemma pow10_pos: "(0::rat) < 10 powi e"
  by (simp add: zero_less_power_int)

lemma dec_round_pos:
  "0 < x \<Longrightarrow> dec_round x
     = of_int (round_half_even (x / 10 powi (adjusted x - 27))) * 10 powi (adjusted x - 27)"
  by (simp add: dec_round_def Let_def)

lemma dec_round_nonneg: "0 \<le> x \<Longrightarrow> 0 \<le> dec_round x"
proof (cases "x = 0")
  case True
  then show ?thesis by (simp add: dec_round_def)
next
  case False
  assume "0 \<le> x"
  with False have x: "0 < x" by simp
  have "0 \<le> x / 10 powi (adjusted x - 27)" using x pow10_pos[of "adjusted x - 27"] by simp
  then have "0 \<le> round_half_even (x / 10 powi (adjusted x - 27))"
    by (rule round_half_even_nonneg)
  then show ?thesis using pow10_pos[of "adjusted x - 27"]
    unfolding dec_round_pos[OF x] by simp
qed







lemma dec_round_of_int:
  assumes "0 \<le> n" and "n < 10 ^ 28"
  shows "dec_round (of_int n) = of_int n"
proof (cases "n = 0")
  case True
  then show ?thesis by (simp add: dec_round_def)
next
  case False
  define x :: rat where "x = of_int n"
  have x: "0 < x" using False assms by (simp add: x_def)
  have "(10::rat) powi adjusted x \<le> x" using adjusted_bounds[OF x] by blast
  also have "x < 10 ^ 28" unfolding x_def by (rule of_int_less_pow10[OF assms(2)])
  also have "(10::rat) ^ 28 = 10 powi 28" by simp
  finally have lt: "(10::rat) powi adjusted x < 10 powi 28" .
  have a28: "adjusted x < 28"
    by (rule power_int_le_imp_less_exp[OF _ lt]) simp_all
  define k where "k = nat (27 - adjusted x)"
  have k: "adjusted x - 27 = - int k" using a28 by (simp add: k_def)
  have p: "(10::rat) powi (- int k) = 1 / 10 ^ k"
    by (simp add: power_int_minus divide_inverse)
  have z: "x / 10 powi (- int k) = of_int (n * 10 ^ k)"
    by (simp add: p x_def)
  show ?thesis
    unfolding x_def[symmetric] dec_round_pos[OF x] k z round_half_even_of_int
    by (simp add: p x_def)
qed


lemma dec_round_minus: "dec_round (- x) = - dec_round x"
  by (simp add: dec_round_def Let_def)

lemma dec_round_numeral:
  "numeral w < (10::int) ^ 28 \<Longrightarrow> dec_round (numeral w) = numeral w"
  using dec_round_of_int[of "numeral w"] by simp

lemma dec_round_0: "dec_round 0 = 0"
  by (simp add: dec_round_def)

lemma dec_round_1: "dec_round 1 = 1"
  using dec_round_of_int[of 1] by simp



section \<open>Properties of the allocation planner\<close>

lemma selected_target_Some:
  assumes "selected_target cfg tot tw tv pmap prices ids sy = Some t"
  shows "symbol t = sy \<and> (\<exists>pr. prices sy = Some pr \<and> 0 < pr)"
  using assms
  by (auto simp: selected_target_def Let_def split: if_splits option.splits)

lemma in_selected_targets:
  "t \<in> set (selected_targets cfg tot tw tv pmap prices ids syms) \<Longrightarrow>
   \<exists>sy \<in> set syms. selected_target cfg tot tw tv pmap prices ids sy = Some t"
  by (induction syms) (auto split: option.splits)

lemma in_liquidation_targets:
  "t \<in> set (liquidation_targets tot sel poss) \<longleftrightarrow>
   (\<exists>pos \<in> set poss. p_symbol pos \<notin> set sel \<and> 0 < p_quantity pos \<and>
      t = liquidation_target tot pos)"
  by (induction poss) auto

lemma calculate_targets_Inr:
  assumes "calculate_targets cfg sel poss cash prices ids = Inr summ"
  shows "targets summ =
     (if total_value summ \<le> 0 then []
      else selected_targets cfg (total_value summ) (dec_div 1 (of_nat (length sel)))
             (dec_mul (total_value summ) (dec_div 1 (of_nat (length sel))))
             (pos_map poss) prices ids (map s_symbol sel)
           @ liquidation_targets (total_value summ) (map s_symbol sel) poss)"
    and "total_value summ = dec_add cash (foldl dec_add 0 (map p_market_value poss))"
  using assms
  by (auto simp: calculate_targets_def Let_def split: if_splits)

lemma targets_cases:
  assumes "calculate_targets cfg sel poss cash prices ids = Inr summ"
      and "t \<in> set (targets summ)"
  shows "(\<exists>sy \<in> set (map s_symbol sel). \<exists>tot tw tv.
            selected_target cfg tot tw tv (pos_map poss) prices ids sy = Some t)
         \<or> (\<exists>tot. \<exists>pos \<in> set poss. p_symbol pos \<notin> set (map s_symbol sel) \<and>
               0 < p_quantity pos \<and> t = liquidation_target tot pos)"
proof -
  let ?tot = "total_value summ"
  let ?tw = "dec_div 1 (of_nat (length sel))"
  from assms(2) calculate_targets_Inr(1)[OF assms(1)]
  have "t \<in> set (selected_targets cfg ?tot ?tw (dec_mul ?tot ?tw) (pos_map poss) prices ids
                   (map s_symbol sel))
        \<or> t \<in> set (liquidation_targets ?tot (map s_symbol sel) poss)"
    by (auto split: if_splits)
  then show ?thesis
  proof
    assume "t \<in> set (selected_targets cfg ?tot ?tw (dec_mul ?tot ?tw) (pos_map poss) prices ids
                   (map s_symbol sel))"
    from in_selected_targets[OF this] show ?thesis by blast
  next
    assume "t \<in> set (liquidation_targets ?tot (map s_symbol sel) poss)"
    then show ?thesis unfolding in_liquidation_targets by blast
  qed
qed

lemma selected_target_hold:
  assumes "selected_target cfg tot tw tv pmap prices ids sy = Some t"
  shows "action t = ''hold'' \<longrightarrow> trade_quantity t = 0" and "0 \<le> trade_value t"
  using assms
  by (auto simp: selected_target_def Let_def dec_abs_def dec_round_nonneg
           split: if_splits option.splits)


text \<open>Values of the rounding that the examples below meet.\<close>

lemma dec_round_values:
  "dec_round (1 / 10) = 1 / 10"
  "dec_round (11 / 10) = 11 / 10"
  "dec_round (39 / 20) = 39 / 20"
  "dec_round (1 / 2) = 1 / 2"
  "dec_round (1 / 39) = 641025641025641025641025641 / 25000000000000000000000000000"
  "dec_round (10 / 11) = 9090909090909090909090909091 / 10000000000000000000000000000"
  "dec_round (1 / 9) = 1111111111111111111111111111 / 10000000000000000000000000000"
  "dec_round (1111111111111111111111111111 / 10000000000000000000000000000)
     = 1111111111111111111111111111 / 10000000000000000000000000000"
  "dec_round (9999999999999999999999999999 / 100000000000000000000000000)
     = 9999999999999999999999999999 / 100000000000000000000000000"
  "dec_round (9999999999999999999999999999 / 5000000000000000000000000000) = 2"
  by code_simp+

lemmas planner_eval = calculate_targets_def default_config_def default_StockScore_def
  selected_target_def liquidation_target_def pos_map_def round_down_def Let_def
  floor_eq_iff ceiling_eq_iff dec_add_def dec_sub_def dec_mul_def dec_div_def dec_abs_def
  dec_round_0 dec_round_1 dec_round_numeral dec_round_minus dec_round_values

text \<open>
  Claim C2, as the code has it: in every target the planner returns, the action
  \<open>hold\<close> implies a trade quantity of 0, and the trade value is non-negative when no
  held position has a negative market value. The converse of the first part fails: a
  buy or sell whose capped value is below the price of one share has quantity 0, and
  so does the forced sale of less than one share.
\<close>

theorem hold_target_has_zero_quantity:
  assumes "calculate_targets cfg sel poss cash prices ids = Inr summ"
      and "t \<in> set (targets summ)"
  shows "(action t = ''hold'' \<longrightarrow> trade_quantity t = 0) \<and>
         ((\<forall>p \<in> set poss. 0 \<le> p_market_value p) \<longrightarrow> 0 \<le> trade_value t)"
  using targets_cases[OF assms]
proof (elim disjE bexE exE conjE)
  fix sy tot tw tv
  assume "selected_target cfg tot tw tv (pos_map poss) prices ids sy = Some t"
  from selected_target_hold[OF this] show ?thesis by simp
next
  fix tot pos
  assume "pos \<in> set poss" "t = liquidation_target tot pos"
  then show ?thesis by (auto simp: liquidation_target_def)
qed

theorem hold_target_has_zero_quantity_witness:
  "(case calculate_targets default_config [default_StockScore ''A'']
      [\<lparr> p_security_id = ''sec-a'', p_symbol = ''A'', p_quantity = 10, p_market_value = 1000,
         p_book_value = 900, p_currency = ''CAD'', p_average_price = 90,
         p_current_price = 100, p_gain_loss = 100, p_gain_loss_pct = 10 \<rparr>]
      0 [''A'' \<mapsto> 100] Map.empty of
     Inl e \<Rightarrow> False
   | Inr s \<Rightarrow> map action (targets s) = [''hold''] \<and> map trade_quantity (targets s) = [0]
       \<and> 0 \<le> trade_value (hd (targets s)))"
proof -
  let ?pos = "\<lparr> p_security_id = ''sec-a'', p_symbol = ''A'', p_quantity = 10,
         p_market_value = 1000, p_book_value = 900, p_currency = ''CAD'',
         p_average_price = 90, p_current_price = 100, p_gain_loss = 100,
         p_gain_loss_pct = 10 \<rparr>"
  let ?t = "\<lparr> symbol = ''A'', security_id = [], target_weight = 1, target_value = 1000,
         current_value = 1000, current_weight = 1, drift_pct = 0, action = ''hold'',
         trade_value = 0, trade_quantity = 0 \<rparr>"
  let ?s = "\<lparr> total_value = 1000, cash_balance = 0, positions_value = 1000,
         num_holdings = 1, targets = [?t] \<rparr>"
  have run: "calculate_targets default_config [default_StockScore ''A''] [?pos] 0
               [''A'' \<mapsto> 100] Map.empty = Inr ?s"
    by (simp add: planner_eval)
  have "?t \<in> set (targets ?s)" by simp
  from hold_target_has_zero_quantity[OF run this] show ?thesis
    unfolding run by simp
qed

theorem buy_target_with_zero_quantity:
  "calculate_targets default_config [default_StockScore ''A''] [] 100
     [''A'' \<mapsto> 1000] Map.empty
   = Inr \<lparr> total_value = 100, cash_balance = 100, positions_value = 0, num_holdings = 0,
       targets = [\<lparr> symbol = ''A'', security_id = [], target_weight = 1,
         target_value = 100, current_value = 0, current_weight = 0, drift_pct = 100,
         action = ''buy'', trade_value = 100, trade_quantity = 0 \<rparr>] \<rparr>
   \<and> calculate_targets default_config [default_StockScore ''A'']
      [\<lparr> p_security_id = ''sec-c'', p_symbol = ''C'', p_quantity = 100,
         p_market_value = - 50, p_book_value = 900, p_currency = ''CAD'',
         p_average_price = 9, p_current_price = 10, p_gain_loss = 100,
         p_gain_loss_pct = 10 \<rparr>]
      2000 [''A'' \<mapsto> 1000] Map.empty
   = Inr \<lparr> total_value = 1950, cash_balance = 2000, positions_value = - 50,
       num_holdings = 1,
       targets = [\<lparr> symbol = ''A'', security_id = [], target_weight = 1,
         target_value = 1950, current_value = 0, current_weight = 0, drift_pct = 100,
         action = ''buy'', trade_value = 1950, trade_quantity = 1 \<rparr>,
        \<lparr> symbol = ''C'', security_id = ''sec-c'', target_weight = 0, target_value = 0,
          current_value = - 50,
          current_weight = - (641025641025641025641025641 / 25000000000000000000000000000),
          drift_pct = 100,
          action = ''sell'', trade_value = - 50, trade_quantity = 100 \<rparr>] \<rparr>"
  by (simp add: planner_eval)

text \<open>
  Claim C3, as the code has it: when the total portfolio value is positive, every held
  position with positive quantity whose symbol is outside the selection gets a target
  with action \<open>sell\<close> and drift 100, whatever the configured thresholds; its trade
  quantity is the whole part of the position's quantity (\<open>int(pos.quantity)\<close>), which is
  the quantity itself exactly when that is a whole number.
\<close>

theorem unselected_holding_is_liquidated:
  assumes "calculate_targets cfg sel poss cash prices ids = Inr summ"
      and "0 < total_value summ"
      and "pos \<in> set poss" and "0 < p_quantity pos"
      and "p_symbol pos \<notin> set (map s_symbol sel)"
  shows "\<exists>t \<in> set (targets summ). symbol t = p_symbol pos \<and> action t = ''sell'' \<and>
           trade_quantity t = \<lfloor>p_quantity pos\<rfloor> \<and> drift_pct t = 100 \<and>
           (of_int (trade_quantity t) = p_quantity pos \<longleftrightarrow> p_quantity pos \<in> \<int>)"
proof -
  let ?tot = "total_value summ"
  have "liquidation_target ?tot pos \<in> set (liquidation_targets ?tot (map s_symbol sel) poss)"
    using assms(3-5) unfolding in_liquidation_targets by blast
  then have mem: "liquidation_target ?tot pos \<in> set (targets summ)"
    using calculate_targets_Inr(1)[OF assms(1)] assms(2) by simp
  have rd: "round_down (p_quantity pos) = \<lfloor>p_quantity pos\<rfloor>"
    using assms(4) by (simp add: round_down_def)
  have whole: "of_int \<lfloor>p_quantity pos\<rfloor> = p_quantity pos \<longleftrightarrow> p_quantity pos \<in> \<int>"
    by (metis Ints_of_int floor_of_int Ints_cases)
  show ?thesis
    using rd whole
    by (intro bexI[OF _ mem]) (simp add: liquidation_target_def)
qed

theorem unselected_holding_is_liquidated_witness:
  "(case calculate_targets default_config [default_StockScore ''A'']
      [\<lparr> p_security_id = ''sec-c'', p_symbol = ''C'', p_quantity = 40,
         p_market_value = 1000, p_book_value = 900, p_currency = ''CAD'',
         p_average_price = 45 / 2, p_current_price = 25, p_gain_loss = 100,
         p_gain_loss_pct = 100 / 9 \<rparr>]
      100 [''A'' \<mapsto> 50] Map.empty of
     Inl e \<Rightarrow> False
   | Inr s \<Rightarrow> 0 < total_value s \<and>
       (\<exists>t \<in> set (targets s). symbol t = ''C'' \<and> action t = ''sell'' \<and>
          trade_quantity t = 40 \<and> drift_pct t = 100))"
proof -
  let ?pos = "\<lparr> p_security_id = ''sec-c'', p_symbol = ''C'', p_quantity = 40,
         p_market_value = 1000, p_book_value = 900, p_currency = ''CAD'',
         p_average_price = 45 / 2, p_current_price = 25, p_gain_loss = 100,
         p_gain_loss_pct = 100 / 9 \<rparr>"
  let ?s = "\<lparr> total_value = 1100, cash_balance = 100, positions_value = 1000,
       num_holdings = 1,
       targets = [\<lparr> symbol = ''A'', security_id = [], target_weight = 1,
         target_value = 1100, current_value = 0, current_weight = 0, drift_pct = 100,
         action = ''buy'', trade_value = 1100, trade_quantity = 22 \<rparr>,
        \<lparr> symbol = ''C'', security_id = ''sec-c'', target_weight = 0, target_value = 0,
          current_value = 1000,
          current_weight = 9090909090909090909090909091 / 10000000000000000000000000000,
          drift_pct = 100,
          action = ''sell'', trade_value = 1000, trade_quantity = 40 \<rparr>] \<rparr>"
  have run: "calculate_targets default_config [default_StockScore ''A''] [?pos] 100
               [''A'' \<mapsto> 50] Map.empty = Inr ?s"
    by (simp add: planner_eval)
  have "\<exists>t \<in> set (targets ?s). symbol t = p_symbol ?pos \<and> action t = ''sell'' \<and>
           trade_quantity t = \<lfloor>p_quantity ?pos\<rfloor> \<and> drift_pct t = 100 \<and>
           (of_int (trade_quantity t) = p_quantity ?pos \<longleftrightarrow> p_quantity ?pos \<in> \<int>)"
    by (rule unselected_holding_is_liquidated[OF run]) (simp_all add: default_StockScore_def)
  then show ?thesis unfolding run by simp
qed

text \<open>
  Two inputs where claim C3 as stated fails: a holding of 5/2 shares is sold with trade
  quantity 2, and with a non-positive total portfolio value (cash of -2000 against a
  holding worth 1000) no target is emitted at all.
\<close>

theorem liquidation_truncates_or_is_skipped:
  "calculate_targets default_config [default_StockScore ''A'']
      [\<lparr> p_security_id = ''sec-c'', p_symbol = ''C'', p_quantity = 5 / 2,
         p_market_value = 1000, p_book_value = 900, p_currency = ''CAD'',
         p_average_price = 360, p_current_price = 400, p_gain_loss = 100,
         p_gain_loss_pct = 100 / 9 \<rparr>]
      100 [''A'' \<mapsto> 1000] Map.empty
   = Inr \<lparr> total_value = 1100, cash_balance = 100, positions_value = 1000,
       num_holdings = 1,
       targets = [\<lparr> symbol = ''A'', security_id = [], target_weight = 1,
         target_value = 1100, current_value = 0, current_weight = 0, drift_pct = 100,
         action = ''buy'', trade_value = 1100, trade_quantity = 1 \<rparr>,
        \<lparr> symbol = ''C'', security_id = ''sec-c'', target_weight = 0, target_value = 0,
          current_value = 1000,
          current_weight = 9090909090909090909090909091 / 10000000000000000000000000000,
          drift_pct = 100,
          action = ''sell'', trade_value = 1000, trade_quantity = 2 \<rparr>] \<rparr>
   \<and> calculate_targets default_config [default_StockScore ''A'']
      [\<lparr> p_security_id = ''sec-c'', p_symbol = ''C'', p_quantity = 100,
         p_market_value = 1000, p_book_value = 900, p_currency = ''CAD'',
         p_average_price = 9, p_current_price = 10, p_gain_loss = 100,
         p_gain_loss_pct = 100 / 9 \<rparr>]
      (- 2000) [''A'' \<mapsto> 1000] Map.empty
   = Inr \<lparr> total_value = - 1000, cash_balance = - 2000, positions_value = 1000,
       num_holdings = 1, targets = [] \<rparr>"
  by (simp add: planner_eval)

text \<open>
  Claim C4: with an empty selection and a positive total portfolio value the planner
  does not return: \<open>Decimal("1") / Decimal("0")\<close> raises.
\<close>

theorem calculate_targets_empty_selection_raises:
  "calculate_targets default_config [] [] 100 Map.empty Map.empty = Inl DivisionByZero"
  by (simp add: calculate_targets_def dec_add_def dec_round_numeral)

text \<open>With a selection that is not empty, the planner always returns a summary.\<close>

lemma calculate_targets_returns:
  "sel \<noteq> [] \<Longrightarrow> \<exists>summ. calculate_targets cfg sel poss cash prices ids = Inr summ"
  by (simp add: calculate_targets_def Let_def)




text \<open>
  Claim C10: a selected symbol whose price is missing or not positive gets no target of
  any kind, also when it is held: the first loop skips it and the forced-liquidation
  loop only takes symbols outside the selection.
\<close>

theorem unpriced_selected_symbol_has_no_target:
  assumes "calculate_targets cfg sel poss cash prices ids = Inr summ"
      and "x \<in> set (map s_symbol sel)"
      and "(case prices x of Some pr \<Rightarrow> pr | None \<Rightarrow> 0) \<le> 0"
  shows "\<forall>t \<in> set (targets summ). symbol t \<noteq> x"
proof
  fix t assume t: "t \<in> set (targets summ)"
  show "symbol t \<noteq> x"
  proof
    assume eq: "symbol t = x"
    from targets_cases[OF assms(1) t] show False
    proof (elim disjE bexE exE conjE)
      fix sy tot tw tv
      assume "selected_target cfg tot tw tv (pos_map poss) prices ids sy = Some t"
      from selected_target_Some[OF this] eq assms(3) show False by auto
    next
      fix tot pos
      assume "p_symbol pos \<notin> set (map s_symbol sel)" "t = liquidation_target tot pos"
      then show False using eq assms(2) by (simp add: liquidation_target_def)
    qed
  qed
qed

theorem unpriced_selected_symbol_has_no_target_witness:
  "(case calculate_targets default_config [default_StockScore ''A'', default_StockScore ''B'']
      [\<lparr> p_security_id = ''sec-b'', p_symbol = ''B'', p_quantity = 10,
         p_market_value = 500, p_book_value = 400, p_currency = ''CAD'',
         p_average_price = 40, p_current_price = 50, p_gain_loss = 100,
         p_gain_loss_pct = 25 \<rparr>]
      500 [''A'' \<mapsto> 50, ''B'' \<mapsto> 0] Map.empty of
     Inl e \<Rightarrow> False
   | Inr s \<Rightarrow> ''B'' \<notin> symbol ` set (targets s) \<and> map symbol (targets s) = [''A''])"
proof -
  let ?pos = "\<lparr> p_security_id = ''sec-b'', p_symbol = ''B'', p_quantity = 10,
         p_market_value = 500, p_book_value = 400, p_currency = ''CAD'',
         p_average_price = 40, p_current_price = 50, p_gain_loss = 100,
         p_gain_loss_pct = 25 \<rparr>"
  let ?s = "\<lparr> total_value = 1000, cash_balance = 500, positions_value = 500,
       num_holdings = 1,
       targets = [\<lparr> symbol = ''A'', security_id = [], target_weight = 1 / 2,
         target_value = 500, current_value = 0, current_weight = 0, drift_pct = 100,
         action = ''buy'', trade_value = 500, trade_quantity = 10 \<rparr>] \<rparr>"
  have run: "calculate_targets default_config
               [default_StockScore ''A'', default_StockScore ''B''] [?pos] 500
               [''A'' \<mapsto> 50, ''B'' \<mapsto> 0] Map.empty = Inr ?s"
    by (simp add: planner_eval)
  have "\<forall>t \<in> set (targets ?s). symbol t \<noteq> ''B''"
    by (rule unpriced_selected_symbol_has_no_target[OF run])
       (simp_all add: default_StockScore_def)
  then show ?thesis unfolding run by simp
qed


section \<open>Properties of the metric calculator\<close>









section \<open>Properties of the ranker\<close>

lemma length_assign_rank [simp]: "length (assign_rank n e ranks) = length ranks"
  by (simp add: assign_rank_def)

lemma assign_rank_nth_same:
  "fst p < length ranks \<Longrightarrow>
   assign_rank n (k, p) ranks ! fst p = real k / real_of_int (max (int n - 1) 1)"
  by (simp add: assign_rank_def)

lemma assign_rank_nth_other:
  "i \<noteq> fst p \<Longrightarrow> assign_rank n (k, p) ranks ! i = ranks ! i"
  by (simp add: assign_rank_def)

lemma set_assign_rank:
  "set (assign_rank n (k, p) ranks)
     \<subseteq> insert (real k / real_of_int (max (int n - 1) 1)) (set ranks)"
  by (simp add: assign_rank_def set_update_subset_insert)

lemma length_fold_assign_rank [simp]:
  "length (fold (assign_rank n) es ranks) = length ranks"
  by (induction es arbitrary: ranks) simp_all

lemma fold_assign_rank_set:
  "set (fold (assign_rank n) (enumerate k ps) init)
     \<subseteq> set init \<union> (\<lambda>i. real i / real_of_int (max (int n - 1) 1)) ` {k ..< k + length ps}"
proof (induction ps arbitrary: k init)
  case Nil
  then show ?case by simp
next
  case (Cons p ps)
  let ?f = "\<lambda>i. real i / real_of_int (max (int n - 1) 1)"
  have A: "?f ` {Suc k ..< Suc k + length ps} \<subseteq> ?f ` {k ..< k + length (p # ps)}"
    by (rule image_mono) auto
  have "k \<in> {k ..< k + length (p # ps)}" by simp
  then have "?f k \<in> ?f ` {k ..< k + length (p # ps)}" by (rule imageI)
  with set_assign_rank[of n k p init]
  have B: "set (assign_rank n (k, p) init) \<subseteq> set init \<union> ?f ` {k ..< k + length (p # ps)}"
    by blast
  have "set (fold (assign_rank n) (enumerate k (p # ps)) init)
        = set (fold (assign_rank n) (enumerate (Suc k) ps) (assign_rank n (k, p) init))"
    by simp
  also have "\<dots> \<subseteq> set (assign_rank n (k, p) init) \<union> ?f ` {Suc k ..< Suc k + length ps}"
    by (rule Cons.IH)
  also have "\<dots> \<subseteq> set init \<union> ?f ` {k ..< k + length (p # ps)}"
    using A B by blast
  finally show ?case .
qed

lemma fold_assign_rank_untouched:
  "i \<notin> fst ` set ps \<Longrightarrow> fold (assign_rank n) (enumerate k ps) init ! i = init ! i"
proof (induction ps arbitrary: k init)
  case Nil
  then show ?case by simp
next
  case (Cons p ps)
  then have "i \<noteq> fst p" "i \<notin> fst ` set ps" by auto
  with Cons.IH[of "Suc k" "assign_rank n (k, p) init"] show ?case
    by (simp add: assign_rank_nth_other)
qed

lemma fold_assign_rank_nth:
  assumes "distinct (map fst ps)" and "\<forall>p \<in> set ps. fst p < length init"
      and "j < length ps"
  shows "fold (assign_rank n) (enumerate k ps) init ! fst (ps ! j)
         = real (k + j) / real_of_int (max (int n - 1) 1)"
  using assms
proof (induction ps arbitrary: k init j)
  case Nil
  then show ?case by simp
next
  case (Cons p ps)
  show ?case
  proof (cases j)
    case 0
    have "fst p \<notin> fst ` set ps" using Cons.prems(1) by auto
    from fold_assign_rank_untouched[OF this, of n "Suc k" "assign_rank n (k, p) init"]
    show ?thesis using 0 Cons.prems(2) by (simp add: assign_rank_nth_same)
  next
    case (Suc j')
    have "fold (assign_rank n) (enumerate (Suc k) ps) (assign_rank n (k, p) init) ! fst (ps ! j')
          = real (Suc k + j') / real_of_int (max (int n - 1) 1)"
      using Cons.prems Suc by (intro Cons.IH) auto
    then show ?thesis using Suc by simp
  qed
qed

lemma distinct_map_insort_key:
  "distinct (map g (insort_key f x xs)) \<longleftrightarrow> g x \<notin> g ` set xs \<and> distinct (map g xs)"
  by (induction xs) (auto simp: set_insort_key)

lemma distinct_map_sort_key: "distinct (map g (sort_key f xs)) = distinct (map g xs)"
  by (induction xs) (simp_all add: distinct_map_insort_key)

lemma last_filter_nth:
  assumes "i < length xs" and "P (xs ! i)"
      and "\<forall>j. i < j \<and> j < length xs \<longrightarrow> \<not> P (xs ! j)"
  shows "last (filter P xs) = xs ! i"
proof -
  have xs: "xs = take i xs @ xs ! i # drop (Suc i) xs"
    using assms(1) by (rule id_take_nth_drop)
  have "filter P (drop (Suc i) xs) = []"
    unfolding filter_empty_conv
  proof
    fix x assume "x \<in> set (drop (Suc i) xs)"
    then obtain k where "k < length xs - Suc i" "x = xs ! (Suc i + k)"
      by (auto simp: in_set_conv_nth)
    with assms(3) show "\<not> P x" by simp
  qed
  then have "filter P xs = filter P (take i xs) @ [xs ! i]"
    using assms(2) by (subst xs) simp
  then show ?thesis by simp
qed

lemma last_filter_same:
  "xs \<noteq> [] \<Longrightarrow> P (last xs) \<Longrightarrow> last (filter P xs) = last xs"
  by (induction xs) (auto split: if_splits simp: filter_empty_conv)

lemma sorted_le_last:
  "sorted (map f xs) \<Longrightarrow> x \<in> set xs \<Longrightarrow> f x \<le> f (last xs)"
  by (induction xs) (auto split: if_splits)

lemma last_sorted_enumerate:
  fixes vs :: "real list"
  assumes "i < length vs" and "\<forall>j < length vs. vs ! j \<le> vs ! i"
      and "\<forall>j. i < j \<and> j < length vs \<longrightarrow> vs ! j \<noteq> vs ! i"
  shows "last (sort_key snd (enumerate 0 vs)) = (i, vs ! i)"
proof -
  let ?es = "enumerate 0 vs"
  let ?ps = "sort_key snd ?es"
  let ?P = "\<lambda>y :: nat \<times> real. snd y = vs ! i"
  have ne: "?ps \<noteq> []" using assms(1) by (metis length_sort length_enumerate length_0_conv not_less0)
  have mem: "(i, vs ! i) \<in> set ?ps" using assms(1) by (simp add: in_set_enumerate_eq)
  have "last ?ps \<in> set ?es" using last_in_set[OF ne] by simp
  then obtain j where j: "j < length vs" "last ?ps = (j, vs ! j)"
    by (auto simp: in_set_enumerate_eq)
  have "vs ! i \<le> snd (last ?ps)"
    using sorted_le_last[of snd ?ps, OF sorted_sort_key mem] by simp
  with j assms(2) have top: "?P (last ?ps)" by fastforce
  have "last ?ps = last (filter ?P ?ps)"
    using last_filter_same[OF ne, of ?P] top by simp
  also have "filter ?P ?ps = filter ?P ?es" by (rule sort_key_stable)
  also have "last (filter ?P ?es) = ?es ! i"
    using assms(1,3) by (intro last_filter_nth) (simp_all add: nth_enumerate_eq)
  also have "?es ! i = (i, vs ! i)" using assms(1) by (simp add: nth_enumerate_eq)
  finally show ?thesis .
qed

text \<open>
  Claim C6, as the code has it, for factor values that are all numbers (no NaN): every
  fractional rank of a factor lies in [0, 1]; a single candidate gets rank 0, that is
  \<open>0 / max(n - 1, 1)\<close>; and among at least two candidates, the candidate that has the
  maximum value and comes last among those that tie for it (the sort is stable) gets
  rank 1.
\<close>

theorem percentile_rank_bounds_and_top:
  fixes vs :: "real list"
  shows "(\<forall>r \<in> set (percentile_rank (length vs) vs). 0 \<le> r \<and> r \<le> 1) \<and>
         (length vs = 1 \<longrightarrow> percentile_rank (length vs) vs = [0]) \<and>
         (2 \<le> length vs \<longrightarrow>
          (\<forall>i < length vs.
            (\<forall>j < length vs. vs ! j \<le> vs ! i) \<and>
            (\<forall>j. i < j \<and> j < length vs \<longrightarrow> vs ! j \<noteq> vs ! i)
            \<longrightarrow> percentile_rank (length vs) vs ! i = 1))"
proof -
  let ?n = "length vs"
  let ?ps = "sort_key snd (enumerate 0 vs)"
  let ?d = "real_of_int (max (int ?n - 1) 1)"
  have dpos: "0 < ?d" by simp
  have bounds: "\<forall>r \<in> set (percentile_rank ?n vs). 0 \<le> r \<and> r \<le> 1"
  proof
    fix r assume "r \<in> set (percentile_rank ?n vs)"
    then have "r \<in> set (replicate ?n (0::real)) \<union> (\<lambda>i. real i / ?d) ` {0 ..< 0 + length ?ps}"
      using fold_assign_rank_set[of ?n 0 ?ps "replicate ?n 0"]
      unfolding percentile_rank_def Let_def by blast
    then consider "r = 0" | i where "i < ?n" "r = real i / ?d" by auto
    then show "0 \<le> r \<and> r \<le> 1"
    proof cases
      case 1 then show ?thesis by simp
    next
      case 2
      have "int i \<le> max (int ?n - 1) 1" using 2(1) by simp
      then have "real_of_int (int i) \<le> ?d" by (simp only: of_int_le_iff)
      then have "real i \<le> ?d" by simp
      then show ?thesis using 2(2) dpos by simp
    qed
  qed
  have single: "length vs = 1 \<longrightarrow> percentile_rank ?n vs = [0]"
  proof
    assume "length vs = 1"
    then obtain v where "vs = [v]" by (cases vs) simp_all
    then show "percentile_rank ?n vs = [0]"
      by (simp add: percentile_rank_def assign_rank_def)
  qed
  have top: "2 \<le> ?n \<longrightarrow> (\<forall>i < ?n. (\<forall>j < ?n. vs ! j \<le> vs ! i) \<and>
                 (\<forall>j. i < j \<and> j < ?n \<longrightarrow> vs ! j \<noteq> vs ! i)
               \<longrightarrow> percentile_rank ?n vs ! i = 1)"
  proof (intro allI impI)
    fix i
    assume two: "2 \<le> ?n" and i: "i < ?n"
       and top: "(\<forall>j < ?n. vs ! j \<le> vs ! i) \<and> (\<forall>j. i < j \<and> j < ?n \<longrightarrow> vs ! j \<noteq> vs ! i)"
    have d: "?d = real ?n - 1" using two by (simp add: max_def)
    have ne: "?ps \<noteq> []"
      using i by (metis length_sort length_enumerate length_0_conv not_less0)
    have "last ?ps = (i, vs ! i)" using last_sorted_enumerate[OF i] top by blast
    then have at: "?ps ! (?n - 1) = (i, vs ! i)" using last_conv_nth[OF ne] by simp
    have "fold (assign_rank ?n) (enumerate 0 ?ps) (replicate ?n 0) ! fst (?ps ! (?n - 1))
          = real (0 + (?n - 1)) / ?d"
      using i by (intro fold_assign_rank_nth) (auto simp: distinct_map_sort_key in_set_enumerate_eq)
    then have "fold (assign_rank ?n) (enumerate 0 ?ps) (replicate ?n 0) ! i
               = real (?n - 1) / ?d"
      unfolding at by simp
    then have "percentile_rank ?n vs ! i = real (?n - 1) / ?d"
      by (simp add: percentile_rank_def Let_def)
    also have "\<dots> = 1" using d two by (simp add: of_nat_diff)
    finally show "percentile_rank ?n vs ! i = 1" .
  qed
  from bounds single top show ?thesis by blast
qed

theorem percentile_rank_bounds_and_top_witness:
  "2 \<le> length [5, 1, 5 :: real]
   \<and> percentile_rank 3 [5, 1, 5] ! 2 = 1
   \<and> percentile_rank 3 [5, 1, 5] = [1 / 2, 0, 1]"
proof -
  let ?vs = "[5, 1, 5] :: real list"
  have len: "2 \<le> length ?vs" by simp
  have le: "\<forall>j < length ?vs. ?vs ! j \<le> ?vs ! 2"
    by (auto simp: less_Suc_eq nth_Cons')
  have last: "\<forall>j. 2 < j \<and> j < length ?vs \<longrightarrow> ?vs ! j \<noteq> ?vs ! 2"
    by auto
  have "percentile_rank (length ?vs) ?vs ! 2 = 1"
    using percentile_rank_bounds_and_top[of ?vs] len le last by simp
  moreover have "percentile_rank 3 ?vs = [1 / 2, 0, 1]" by code_simp
  ultimately show ?thesis by simp
qed

text \<open>
  An input where claim C6 as stated fails: a single candidate has the maximum value and
  gets rank 0, not 1.
\<close>

theorem single_candidate_rank_is_zero:
  "percentile_rank (length [5 :: real]) [5] = [0] \<and> Max (set [5 :: real]) = 5"
  by (simp add: percentile_rank_def assign_rank_def)

lemma sector_diversity_loop_subseq:
  "subseq (sector_diversity_loop m counts scores) scores"
  by (induction scores arbitrary: counts) (auto simp: Let_def)

lemma sector_diversity_loop_count:
  "int (length (filter (\<lambda>x. sector x = sec) (sector_diversity_loop m counts scores)))
     + (case counts sec of Some c \<Rightarrow> c | None \<Rightarrow> 0)
   \<le> max m (case counts sec of Some c \<Rightarrow> c | None \<Rightarrow> 0)"
proof (induction scores arbitrary: counts)
  case Nil
  then show ?case by simp
next
  case (Cons s rest)
  define count where "count = (case counts (sector s) of Some c \<Rightarrow> c | None \<Rightarrow> 0)"
  define counts' where "counts' = counts(sector s \<mapsto> count + 1)"
  show ?case
  proof (cases "count < m")
    case True
    then have step: "sector_diversity_loop m counts (s # rest)
                     = s # sector_diversity_loop m counts' rest"
      by (simp add: count_def counts'_def Let_def)
    show ?thesis
    proof (cases "sec = sector s")
      case same: True
      have "(case counts' sec of Some c \<Rightarrow> c | None \<Rightarrow> 0) = count + 1"
        by (simp add: counts'_def same)
      with Cons.IH[of counts'] True
      have "int (length (filter (\<lambda>x. sector x = sec) (sector_diversity_loop m counts' rest)))
              + (count + 1) \<le> m"
        by simp
      then show ?thesis unfolding step using same by (simp add: count_def)
    next
      case other: False
      have "(case counts' sec of Some c \<Rightarrow> c | None \<Rightarrow> 0)
            = (case counts sec of Some c \<Rightarrow> c | None \<Rightarrow> 0)"
        using other by (simp add: counts'_def)
      with Cons.IH[of counts'] show ?thesis unfolding step using other by simp
    qed
  next
    case False
    then have "sector_diversity_loop m counts (s # rest) = sector_diversity_loop m counts rest"
      by (simp add: count_def Let_def)
    with Cons.IH[of counts] show ?thesis by simp
  qed
qed

text \<open>
  Claim C8: the sector-diversity pass returns a subsequence of its input (candidates are
  removed, never reordered), and every sector that appears in the result appears there
  at most \<open>max_per_sector\<close> times.
\<close>

theorem sector_diversity_is_capped_subsequence:
  "subseq (apply_sector_diversity scores m) scores \<and>
   (\<forall>s \<in> set (apply_sector_diversity scores m).
      int (length (filter (\<lambda>x. sector x = sector s) (apply_sector_diversity scores m))) \<le> m)"
proof (intro conjI ballI)
  show "subseq (apply_sector_diversity scores m) scores"
    by (simp add: apply_sector_diversity_def sector_diversity_loop_subseq)
next
  fix s assume s: "s \<in> set (apply_sector_diversity scores m)"
  let ?out = "apply_sector_diversity scores m"
  let ?k = "length (filter (\<lambda>x. sector x = sector s) ?out)"
  have "s \<in> set (filter (\<lambda>x. sector x = sector s) ?out)" using s by simp
  then have "0 < ?k" by (metis length_pos_if_in_set)
  moreover have "int ?k \<le> max m 0"
    using sector_diversity_loop_count[of "sector s" m Map.empty scores]
    by (simp add: apply_sector_diversity_def)
  ultimately show "int ?k \<le> m" by linarith
qed


theorem sector_diversity_is_capped_subsequence_witness:
  "map s_symbol
     (apply_sector_diversity
        [(default_StockScore ''A'')\<lparr>sector := ''Tech''\<rparr>,
         (default_StockScore ''B'')\<lparr>sector := ''Tech''\<rparr>,
         (default_StockScore ''C'')\<lparr>sector := ''Banks''\<rparr>,
         (default_StockScore ''D'')\<lparr>sector := ''Tech''\<rparr>] 2)
   = [''A'', ''B'', ''C'']
   \<and> subseq
       (apply_sector_diversity
        [(default_StockScore ''A'')\<lparr>sector := ''Tech''\<rparr>,
         (default_StockScore ''B'')\<lparr>sector := ''Tech''\<rparr>,
         (default_StockScore ''C'')\<lparr>sector := ''Banks''\<rparr>,
         (default_StockScore ''D'')\<lparr>sector := ''Tech''\<rparr>] 2)
        [(default_StockScore ''A'')\<lparr>sector := ''Tech''\<rparr>,
         (default_StockScore ''B'')\<lparr>sector := ''Tech''\<rparr>,
         (default_StockScore ''C'')\<lparr>sector := ''Banks''\<rparr>,
         (default_StockScore ''D'')\<lparr>sector := ''Tech''\<rparr>]"
  using sector_diversity_is_capped_subsequence
    [of "[(default_StockScore ''A'')\<lparr>sector := ''Tech''\<rparr>,
         (default_StockScore ''B'')\<lparr>sector := ''Tech''\<rparr>,
         (default_StockScore ''C'')\<lparr>sector := ''Banks''\<rparr>,
         (default_StockScore ''D'')\<lparr>sector := ''Tech''\<rparr>]" 2]
  by (simp add: apply_sector_diversity_def default_StockScore_def Let_def)


section \<open>Properties of the rate limiter\<close>

lemma acquire_wait_free:
  "int (length (timestamps rl)) < max_requests rl \<Longrightarrow> acquire_wait now rl = (Inr (), now, rl)"
  by (subst acquire_wait.simps) simp

lemma acquire_wait_empty:
  "max_requests rl \<le> 0 \<Longrightarrow> timestamps rl = [] \<Longrightarrow>
   acquire_wait now rl = (Inl IndexError, now, rl)"
  by (subst acquire_wait.simps) simp

lemma acquire_wait_full:
  "max_requests rl \<le> int (length (timestamps rl)) \<Longrightarrow> timestamps rl = oldest # rest \<Longrightarrow>
   acquire_wait now rl
   = acquire_wait (now + max (window_seconds rl - (now - oldest) + 1) 1)
       (prune_expired (now + max (window_seconds rl - (now - oldest) + 1) 1) rl)"
  by (subst acquire_wait.simps) simp

text \<open>The clock never runs backwards while the limiter waits.\<close>

lemma acquire_wait_mono:
  "acquire_wait now rl = (res, now', rl') \<Longrightarrow> now \<le> now'"
proof (induction now rl arbitrary: res now' rl' rule: acquire_wait.induct)
  case (1 now rl)
  show ?case
  proof (cases "max_requests rl \<le> int (length (timestamps rl))")
    case False
    then show ?thesis using "1.prems" by (simp add: acquire_wait_free)
  next
    case full: True
    show ?thesis
    proof (cases "timestamps rl")
      case Nil
      then show ?thesis using "1.prems" full by (subst (asm) acquire_wait.simps) simp
    next
      case (Cons oldest rest)
      let ?now1 = "now + max (window_seconds rl - (now - oldest) + 1) 1"
      have "acquire_wait ?now1 (prune_expired ?now1 rl) = (res, now', rl')"
        using "1.prems" acquire_wait_full[OF full Cons] by simp
      from "1.IH"[OF full Cons this] have "?now1 \<le> now'" .
      moreover have "now \<le> ?now1" by (simp add: max_def)
      ultimately show ?thesis by linarith
    qed
  qed
qed

text \<open>With a positive ceiling the wait always ends with an admission.\<close>

lemma acquire_wait_returns:
  "0 < max_requests rl \<Longrightarrow> \<exists>now' rl'. acquire_wait now rl = (Inr (), now', rl')"
proof (induction now rl rule: acquire_wait.induct)
  case (1 now rl)
  show ?case
  proof (cases "max_requests rl \<le> int (length (timestamps rl))")
    case False
    then show ?thesis by (simp add: acquire_wait_free)
  next
    case full: True
    then obtain oldest rest where ts: "timestamps rl = oldest # rest"
      using "1.prems" by (cases "timestamps rl") auto
    let ?now1 = "now + max (window_seconds rl - (now - oldest) + 1) 1"
    have "0 < max_requests (prune_expired ?now1 rl)"
      using "1.prems" by (simp add: prune_expired_def)
    from "1.IH"[OF full ts this] show ?thesis
      using acquire_wait_full[OF full ts] by simp
  qed
qed

text \<open>
  Claim C7: with a positive ceiling that the admissions recorded within the trailing
  window have reached, \<open>acquire\<close> returns, it has recorded its timestamp last, and that
  timestamp is at least \<open>window_seconds\<close> (in fact \<open>window_seconds + 1\<close>) after the first of
  those admissions.
\<close>

theorem acquire_waits_for_the_window:
  assumes "0 < max_requests rl"
      and "timestamps (prune_expired now rl) = first # rest"
      and "max_requests rl \<le> int (length (timestamps (prune_expired now rl)))"
  shows "\<exists>now' rl'. acquire now rl = (Inr (), now', rl') \<and> last (timestamps rl') = now' \<and>
           first + window_seconds rl \<le> now' \<and> first + window_seconds rl + 1 \<le> now'"
proof -
  let ?rl0 = "prune_expired now rl"
  let ?now1 = "now + max (window_seconds ?rl0 - (now - first) + 1) 1"
  have w: "window_seconds ?rl0 = window_seconds rl" and m: "max_requests ?rl0 = max_requests rl"
    by (simp_all add: prune_expired_def)
  obtain now' rl'' where wait: "acquire_wait now ?rl0 = (Inr (), now', rl'')"
    using acquire_wait_returns[of ?rl0 now] assms(1) m by auto
  have "acquire_wait ?now1 (prune_expired ?now1 ?rl0) = (Inr (), now', rl'')"
    using wait acquire_wait_full[of ?rl0 first rest now] assms(2,3) m by simp
  then have "?now1 \<le> now'" by (rule acquire_wait_mono)
  moreover have "first + window_seconds rl + 1 \<le> ?now1" by (simp add: w max_def)
  ultimately have late: "first + window_seconds rl + 1 \<le> now'" by linarith
  have "acquire now rl = (Inr (), now', rl''\<lparr>timestamps := timestamps rl'' @ [now']\<rparr>)"
    unfolding acquire_def wait by simp
  with late show ?thesis by auto
qed

text \<open>
  The scenario of the spec: a ceiling of 6 per 3600 seconds, six admissions at time 0 and
  the seventh request at time 0. The seventh is recorded at time 3601.
\<close>

theorem acquire_waits_for_the_window_witness:
  "acquire 0 \<lparr>max_requests = 6, window_seconds = 3600, timestamps = [0, 0, 0, 0, 0, 0]\<rparr>
   = (Inr (), 3601, \<lparr>max_requests = 6, window_seconds = 3600, timestamps = [3601]\<rparr>)
   \<and> (0 :: real) + 3600 \<le> 3601"
proof -
  let ?rl = "\<lparr>max_requests = 6, window_seconds = 3600, timestamps = [0, 0, 0, 0, 0, 0 :: real]\<rparr>"
  let ?rl' = "\<lparr>max_requests = 6, window_seconds = 3600, timestamps = [3601 :: real]\<rparr>"
  have p0: "prune_expired 0 ?rl = ?rl" by (simp add: prune_expired_def)
  have p1: "prune_expired 3601 ?rl = \<lparr>max_requests = 6, window_seconds = 3600, timestamps = []\<rparr>"
    by (simp add: prune_expired_def)
  have "acquire_wait 0 ?rl = acquire_wait 3601 (prune_expired 3601 ?rl)"
    using acquire_wait_full[of ?rl 0 "[0, 0, 0, 0, 0]" 0] by simp
  also have "\<dots> = (Inr (), 3601, \<lparr>max_requests = 6, window_seconds = 3600, timestamps = []\<rparr>)"
    unfolding p1 by (simp add: acquire_wait_free)
  finally have run: "acquire 0 ?rl = (Inr (), 3601, ?rl')"
    by (simp add: acquire_def p0)
  have "\<exists>now' rl'. acquire 0 ?rl = (Inr (), now', rl') \<and> last (timestamps rl') = now' \<and>
          0 + window_seconds ?rl \<le> now' \<and> 0 + window_seconds ?rl + 1 \<le> now'"
    by (rule acquire_waits_for_the_window[of ?rl 0 0 "[0, 0, 0, 0, 0]"]) (simp_all add: p0)
  then show ?thesis unfolding run by simp
qed

text \<open>The first six requests at time 0 are admitted at once.\<close>

lemma six_admissions_at_time_zero:
  "acquire 0 \<lparr>max_requests = 6, window_seconds = 3600, timestamps = []\<rparr>
     = (Inr (), 0, \<lparr>max_requests = 6, window_seconds = 3600, timestamps = [0]\<rparr>)"
  "acquire 0 \<lparr>max_requests = 6, window_seconds = 3600, timestamps = [0]\<rparr>
     = (Inr (), 0, \<lparr>max_requests = 6, window_seconds = 3600, timestamps = [0, 0]\<rparr>)"
  "acquire 0 \<lparr>max_requests = 6, window_seconds = 3600, timestamps = [0, 0]\<rparr>
     = (Inr (), 0, \<lparr>max_requests = 6, window_seconds = 3600, timestamps = [0, 0, 0]\<rparr>)"
  "acquire 0 \<lparr>max_requests = 6, window_seconds = 3600, timestamps = [0, 0, 0]\<rparr>
     = (Inr (), 0, \<lparr>max_requests = 6, window_seconds = 3600, timestamps = [0, 0, 0, 0]\<rparr>)"
  "acquire 0 \<lparr>max_requests = 6, window_seconds = 3600, timestamps = [0, 0, 0, 0]\<rparr>
     = (Inr (), 0, \<lparr>max_requests = 6, window_seconds = 3600, timestamps = [0, 0, 0, 0, 0]\<rparr>)"
  "acquire 0 \<lparr>max_requests = 6, window_seconds = 3600, timestamps = [0, 0, 0, 0, 0]\<rparr>
     = (Inr (), 0, \<lparr>max_requests = 6, window_seconds = 3600, timestamps = [0, 0, 0, 0, 0, 0]\<rparr>)"
  by (simp_all add: acquire_def prune_expired_def acquire_wait_free)

section \<open>Properties of the executor\<close>

text \<open>
  What one \<open>_execute_single\<close> does to the call log and to the count: nothing when
  \<open>acquire\<close> raises; otherwise the order is submitted, and the count is incremented only
  when \<open>place_order\<close> returns.
\<close>

lemma execute_single_effect:
  assumes "execute_single place ex order = (ex', r)"
  shows "(submitted ex' = submitted ex \<and> daily_trade_count ex' = daily_trade_count ex \<and> r = None)
         \<or> (submitted ex' = submitted ex @ [order] \<and>
            (case place order of
               Inl e \<Rightarrow> daily_trade_count ex' = daily_trade_count ex \<and> r = None
             | Inr resp \<Rightarrow> daily_trade_count ex' = daily_trade_count ex + 1 \<and> r = Some resp))"
  using assms
  by (auto simp: execute_single_def split: prod.splits sum.splits)

lemma execute_loop_effect:
  assumes "execute_loop place cfg ex orders results = (ex', results')"
  shows "\<exists>new. submitted ex' = submitted ex @ new \<and> subseq new orders \<and>
           list_all (validate_order cfg) new \<and>
           daily_trade_count ex' = daily_trade_count ex
             + int (length (filter (\<lambda>rq. \<not> isl (place rq)) new)) \<and>
           results' = results @ map (\<lambda>rq. projr (place rq)) (filter (\<lambda>rq. \<not> isl (place rq)) new)"
  using assms
proof (induction orders arbitrary: ex results)
  case Nil
  then show ?case by (intro exI[of _ "[]"]) simp
next
  case (Cons order rest)
  show ?case
  proof (cases "max_daily_trades cfg \<le> daily_trade_count ex")
    case True
    with Cons.prems show ?thesis by (intro exI[of _ "[]"]) simp
  next
    case room: False
    show ?thesis
    proof (cases "validate_order cfg order")
      case False
      with room Cons.prems have "execute_loop place cfg ex rest results = (ex', results')"
        by simp
      from Cons.IH[OF this] obtain new where
        "submitted ex' = submitted ex @ new" "subseq new rest"
        "list_all (validate_order cfg) new"
        "daily_trade_count ex' = daily_trade_count ex
           + int (length (filter (\<lambda>rq. \<not> isl (place rq)) new))"
        "results' = results @ map (\<lambda>rq. projr (place rq)) (filter (\<lambda>rq. \<not> isl (place rq)) new)"
        by blast
      then show ?thesis by (intro exI[of _ new]) (simp add: list_emb_Cons)
    next
      case valid: True
      obtain ex1 r where single: "execute_single place ex order = (ex1, r)"
        by (cases "execute_single place ex order")
      define results1 where "results1 = (case r of None \<Rightarrow> results | Some resp \<Rightarrow> results @ [resp])"
      have "execute_loop place cfg ex1 rest results1 = (ex', results')"
        using Cons.prems room valid single by (simp add: results1_def split: option.splits)
      from Cons.IH[OF this] obtain new where new:
        "submitted ex' = submitted ex1 @ new" "subseq new rest"
        "list_all (validate_order cfg) new"
        "daily_trade_count ex' = daily_trade_count ex1
           + int (length (filter (\<lambda>rq. \<not> isl (place rq)) new))"
        "results' = results1 @ map (\<lambda>rq. projr (place rq)) (filter (\<lambda>rq. \<not> isl (place rq)) new)"
        by blast
      from execute_single_effect[OF single] show ?thesis
      proof (elim disjE conjE)
        assume "submitted ex1 = submitted ex" "daily_trade_count ex1 = daily_trade_count ex"
               "r = None"
        with new show ?thesis
          by (intro exI[of _ new]) (simp add: results1_def list_emb_Cons)
      next
        assume sub: "submitted ex1 = submitted ex @ [order]"
           and eff: "case place order of
                       Inl e \<Rightarrow> daily_trade_count ex1 = daily_trade_count ex \<and> r = None
                     | Inr resp \<Rightarrow> daily_trade_count ex1 = daily_trade_count ex + 1
                                   \<and> r = Some resp"
        show ?thesis
        proof (cases "place order")
          case (Inl e)
          with new sub eff valid show ?thesis
            by (intro exI[of _ "order # new"]) (simp add: results1_def)
        next
          case (Inr resp)
          with new sub eff valid show ?thesis
            by (intro exI[of _ "order # new"]) (simp add: results1_def)
        qed
      qed
    qed
  qed
qed

text \<open>
  Claim C1, as the code has it: a run of \<open>execute_orders\<close> submits a subsequence of the
  sell orders followed by the buy orders, each of which passes the per-order gates, and
  increments the daily trade count once for each submission whose placement call
  returned a response, not for one whose placement call raised; the results it returns
  are those responses. Orders rejected by the gates are not submitted and do not change
  the count.
\<close>

theorem daily_count_counts_returned_placements:
  assumes "execute_orders place cfg ex sell_orders buy_orders = (ex', results)"
  shows "\<exists>new. submitted ex' = submitted ex @ new \<and>
           subseq new (sell_orders @ buy_orders) \<and>
           list_all (validate_order cfg) new \<and>
           daily_trade_count ex' = daily_trade_count ex
             + int (length (filter (\<lambda>rq. \<not> isl (place rq)) new)) \<and>
           results = map (\<lambda>rq. projr (place rq)) (filter (\<lambda>rq. \<not> isl (place rq)) new)"
proof -
  obtain ex1 results1 where l1: "execute_loop place cfg ex sell_orders [] = (ex1, results1)"
    by (cases "execute_loop place cfg ex sell_orders []")
  define ex1' where
    "ex1' = (if sell_orders \<noteq> [] \<and> buy_orders \<noteq> [] then ex1\<lparr>clock := clock ex1 + 5\<rparr> else ex1)"
  obtain ex2 results2 where l2: "execute_loop place cfg ex1' buy_orders results1 = (ex2, results2)"
    by (cases "execute_loop place cfg ex1' buy_orders results1")
  have out: "ex' = ex2\<lparr>executed_orders := executed_orders ex2 @ results2\<rparr>" "results = results2"
    using assms l1 l2 by (auto simp: execute_orders_def ex1'_def)
  have same: "submitted ex1' = submitted ex1" "daily_trade_count ex1' = daily_trade_count ex1"
    by (simp_all add: ex1'_def)
  from execute_loop_effect[OF l1] obtain new1 where n1:
    "submitted ex1 = submitted ex @ new1" "subseq new1 sell_orders"
    "list_all (validate_order cfg) new1"
    "daily_trade_count ex1 = daily_trade_count ex
       + int (length (filter (\<lambda>rq. \<not> isl (place rq)) new1))"
    "results1 = [] @ map (\<lambda>rq. projr (place rq)) (filter (\<lambda>rq. \<not> isl (place rq)) new1)"
    by blast
  from execute_loop_effect[OF l2] obtain new2 where n2:
    "submitted ex2 = submitted ex1' @ new2" "subseq new2 buy_orders"
    "list_all (validate_order cfg) new2"
    "daily_trade_count ex2 = daily_trade_count ex1'
       + int (length (filter (\<lambda>rq. \<not> isl (place rq)) new2))"
    "results2 = results1 @ map (\<lambda>rq. projr (place rq)) (filter (\<lambda>rq. \<not> isl (place rq)) new2)"
    by blast
  have "subseq (new1 @ new2) (sell_orders @ buy_orders)"
    using n1(2) n2(2) by (rule list_emb_append_mono)
  with n1 n2 same out show ?thesis
    by (intro exI[of _ "new1 @ new2"]) simp
qed

lemmas executor_eval = execute_orders_def execute_single_def validate_order_def
  acquire_def prune_expired_def acquire_wait_free default_config_def

text \<open>
  A run with three orders: the sale of X (value 10000) is rejected by the per-trade
  ceiling, the placement of the sale of A raises, the purchase of B is placed. Two
  orders are submitted and the count is 1.
\<close>

theorem daily_count_counts_returned_placements_witness:
  "(case execute_orders
      (\<lambda>rq. if o_symbol rq = ''A'' then Inl PlacementFailed
             else Inr \<lparr> order_id = ''order-1'', r_security_id = o_security_id rq,
                    r_symbol = o_symbol rq, r_quantity = o_quantity rq,
                    r_order_type = ''buy_quantity'', status = ''submitted'',
                    r_limit_price = Some (limit_price rq), filled_at = None,
                    created_at = None \<rparr>)
      default_config
      \<lparr> clock = 0,
        rate_limiter = \<lparr>max_requests = 6, window_seconds = 3600, timestamps = []\<rparr>,
        executed_orders = [], daily_trade_count = 0, submitted = [] \<rparr>
      [\<lparr> o_security_id = ''sec-x'', o_symbol = ''X'', o_quantity = 100,
        order_type = SELL, order_sub_type = LIMIT, limit_price = 100,
        time_in_force = ''day'' \<rparr>,
       \<lparr> o_security_id = ''sec-a'', o_symbol = ''A'', o_quantity = 10,
        order_type = SELL, order_sub_type = LIMIT, limit_price = 50,
        time_in_force = ''day'' \<rparr>]
      [\<lparr> o_security_id = ''sec-b'', o_symbol = ''B'', o_quantity = 5,
        order_type = BUY, order_sub_type = LIMIT, limit_price = 20,
        time_in_force = ''day'' \<rparr>] of
     (ex', results) \<Rightarrow>
       map o_symbol (submitted ex') = [''A'', ''B''] \<and> daily_trade_count ex' = 1 \<and>
       map r_symbol results = [''B''] \<and> timestamps (rate_limiter ex') = [0, 5])"
proof -
  let ?place = "(\<lambda>rq. if o_symbol rq = ''A'' then Inl PlacementFailed
             else Inr \<lparr> order_id = ''order-1'', r_security_id = o_security_id rq,
                    r_symbol = o_symbol rq, r_quantity = o_quantity rq,
                    r_order_type = ''buy_quantity'', status = ''submitted'',
                    r_limit_price = Some (limit_price rq), filled_at = None,
                    created_at = None \<rparr>)"
  let ?ex0 = "\<lparr> clock = 0,
        rate_limiter = \<lparr>max_requests = 6, window_seconds = 3600, timestamps = []\<rparr>,
        executed_orders = [], daily_trade_count = 0, submitted = [] \<rparr>"
  let ?big = "\<lparr> o_security_id = ''sec-x'', o_symbol = ''X'', o_quantity = 100,
        order_type = SELL, order_sub_type = LIMIT, limit_price = 100,
        time_in_force = ''day'' \<rparr>"
  let ?a = "\<lparr> o_security_id = ''sec-a'', o_symbol = ''A'', o_quantity = 10,
        order_type = SELL, order_sub_type = LIMIT, limit_price = 50,
        time_in_force = ''day'' \<rparr>"
  let ?b = "\<lparr> o_security_id = ''sec-b'', o_symbol = ''B'', o_quantity = 5,
        order_type = BUY, order_sub_type = LIMIT, limit_price = 20,
        time_in_force = ''day'' \<rparr>"
  let ?resp = "\<lparr> order_id = ''order-1'', r_security_id = ''sec-b'', r_symbol = ''B'',
        r_quantity = 5, r_order_type = ''buy_quantity'', status = ''submitted'',
        r_limit_price = Some 20, filled_at = None, created_at = None \<rparr>"
  let ?ex' = "\<lparr> clock = 5,
        rate_limiter = \<lparr>max_requests = 6, window_seconds = 3600, timestamps = [0, 5]\<rparr>,
        executed_orders = [?resp], daily_trade_count = 1, submitted = [?a, ?b] \<rparr>"
  have run: "execute_orders ?place default_config ?ex0 [?big, ?a] [?b] = (?ex', [?resp])"
    by (simp add: executor_eval)
  from daily_count_counts_returned_placements[OF run]
  have "\<exists>new. submitted ?ex' = submitted ?ex0 @ new \<and>
          daily_trade_count ?ex' = daily_trade_count ?ex0
            + int (length (filter (\<lambda>rq. \<not> isl (?place rq)) new))"
    by blast
  then show ?thesis unfolding run by simp
qed

text \<open>
  An input where claim C1 as stated fails: one valid sell order whose placement call
  raises. The order reaches the order service (and takes a slot of the rate limiter),
  but the daily trade count stays 0.
\<close>

theorem failed_placement_is_not_counted:
  "execute_orders (\<lambda>rq. Inl PlacementFailed) default_config
      \<lparr> clock = 0,
        rate_limiter = \<lparr>max_requests = 6, window_seconds = 3600, timestamps = []\<rparr>,
        executed_orders = [], daily_trade_count = 0, submitted = [] \<rparr>
      [\<lparr> o_security_id = ''sec-a'', o_symbol = ''A'', o_quantity = 10,
        order_type = SELL, order_sub_type = LIMIT, limit_price = 50,
        time_in_force = ''day'' \<rparr>] []
   = (\<lparr> clock = 0,
        rate_limiter = \<lparr>max_requests = 6, window_seconds = 3600, timestamps = [0]\<rparr>,
        executed_orders = [], daily_trade_count = 0,
        submitted = [\<lparr> o_security_id = ''sec-a'', o_symbol = ''A'', o_quantity = 10,
        order_type = SELL, order_sub_type = LIMIT, limit_price = 50,
        time_in_force = ''day'' \<rparr>] \<rparr>, [])"
  by (simp add: executor_eval)

end
